theory Spec2Isabelle
  imports Main
begin

section \<open>Byte strings and the library functions cors.go calls\<close>

text \<open>
  A Go string is a sequence of bytes, here a \<^typ>\<open>string\<close> (a list of 8-bit characters).
  \<^verbatim>\<open>strings.ToUpper\<close>, \<^verbatim>\<open>strings.ToLower\<close>, \<^verbatim>\<open>strings.IndexByte\<close>, \<^verbatim>\<open>strings.Join\<close>,
  \<^verbatim>\<open>strconv.Itoa\<close> and \<^verbatim>\<open>http.CanonicalHeaderKey\<close> belong to Go's standard library; they are
  modelled on bytes. The case mappings change the ASCII letters only (Go also maps
  non-ASCII letters through the Unicode tables; bytes above 127 are left alone here).
\<close>

definition isLower :: "char \<Rightarrow> bool" where
  "isLower c = (97 \<le> (of_char c :: nat) \<and> (of_char c :: nat) \<le> 122)"

definition isUpper :: "char \<Rightarrow> bool" where
  "isUpper c = (65 \<le> (of_char c :: nat) \<and> (of_char c :: nat) \<le> 90)"

definition isDigit :: "char \<Rightarrow> bool" where
  "isDigit c = (48 \<le> (of_char c :: nat) \<and> (of_char c :: nat) \<le> 57)"

text \<open>
  The distance between the two cases is \<^verbatim>\<open>'a' - 'A'\<close> = 32, bit 5 of the byte: on a lower-case
  letter subtracting 32 clears the bit, on an upper-case letter adding 32 sets it.
\<close>

fun clearBit5 :: "char \<Rightarrow> char" where
  "clearBit5 (Char b0 b1 b2 b3 b4 b5 b6 b7) = Char b0 b1 b2 b3 b4 False b6 b7"

fun setBit5 :: "char \<Rightarrow> char" where
  "setBit5 (Char b0 b1 b2 b3 b4 b5 b6 b7) = Char b0 b1 b2 b3 b4 True b6 b7"

definition toUpperByte :: "char \<Rightarrow> char" where
  "toUpperByte c = (if isLower c then clearBit5 c else c)"

definition toLowerByte :: "char \<Rightarrow> char" where
  "toLowerByte c = (if isUpper c then setBit5 c else c)"

definition ToUpper :: "string \<Rightarrow> string" where
  "ToUpper s = map toUpperByte s"

definition ToLower :: "string \<Rightarrow> string" where
  "ToLower s = map toLowerByte s"

text \<open>\<^verbatim>\<open>strings.IndexByte\<close>: the index of the first occurrence of the byte, or -1.\<close>

fun IndexByte :: "string \<Rightarrow> char \<Rightarrow> int" where
  "IndexByte [] c = - 1"
| "IndexByte (x # xs) c =
     (if x = c then 0
      else (let i = IndexByte xs c in if i < 0 then - 1 else i + 1))"

text \<open>\<^verbatim>\<open>strings.Join\<close>: the elements with the separator between neighbours.\<close>

fun Join :: "string list \<Rightarrow> string \<Rightarrow> string" where
  "Join [] sep = []"
| "Join [x] sep = x"
| "Join (x # y # ys) sep = x @ sep @ Join (y # ys) sep"

text \<open>\<^verbatim>\<open>strconv.Itoa\<close>: the decimal digits, most significant first, after a minus sign
  for a negative number. \<open>decimalValue\<close> reads such a digit string back.\<close>

definition digitChar :: "nat \<Rightarrow> char" where
  "digitChar d = char_of (48 + d)"

function decimal :: "nat \<Rightarrow> string" where
  "decimal n = (if n < 10 then [digitChar n] else decimal (n div 10) @ [digitChar (n mod 10)])"
  by pat_completeness auto
termination
  by (relation "measure (\<lambda>n. n)") auto

declare decimal.simps [simp del]

definition Itoa :: "int \<Rightarrow> string" where
  "Itoa i = (if i < 0 then CHR ''-'' # decimal (nat (- i)) else decimal (nat i))"

definition decimalValue :: "string \<Rightarrow> nat" where
  "decimalValue s = foldl (\<lambda>a c. 10 * a + ((of_char c :: nat) - 48)) 0 s"

text \<open>
  \<^verbatim>\<open>http.CanonicalHeaderKey\<close>: the first letter and every letter after a hyphen in upper
  case, the other letters in lower case; a key holding a space or a byte that is not a
  header field byte (an RFC 7230 token character) is returned as it is.
\<close>

definition validHeaderFieldByte :: "char \<Rightarrow> bool" where
  "validHeaderFieldByte c =
     (isLower c \<or> isUpper c \<or> isDigit c \<or>
      (of_char c :: nat) \<in> set [33, 35, 36, 37, 38, 39, 42, 43, 45, 46, 94, 95, 96, 124, 126])"

definition canonByte :: "bool \<Rightarrow> char \<Rightarrow> char" where
  "canonByte upper c =
     (if upper \<and> isLower c then toUpperByte c
      else if \<not> upper \<and> isUpper c then toLowerByte c
      else c)"

fun canonicalize :: "bool \<Rightarrow> string \<Rightarrow> string" where
  "canonicalize upper [] = []"
| "canonicalize upper (c # cs) =
     (let c' = canonByte upper c in c' # canonicalize (c' = CHR ''-'') cs)"

definition CanonicalHeaderKey :: "string \<Rightarrow> string" where
  "CanonicalHeaderKey s = (if list_all validHeaderFieldByte s then canonicalize True s else s)"

section \<open>HTTP headers, requests and responses\<close>

text \<open>
  \<^verbatim>\<open>http.Header\<close> is a \<^verbatim>\<open>map[string][]string\<close>. \<^verbatim>\<open>Add\<close> appends a value to the key's
  list, \<^verbatim>\<open>Set\<close> replaces the list by the one value, \<^verbatim>\<open>Get\<close> returns the first value or
  the empty string; each of them canonicalizes the key first.
\<close>

type_synonym header = "string \<Rightarrow> string list option"

definition Add :: "header \<Rightarrow> string \<Rightarrow> string \<Rightarrow> header" where
  "Add h key v =
     (let k = CanonicalHeaderKey key
      in h(k \<mapsto> (case h k of None \<Rightarrow> [v] | Some vs \<Rightarrow> vs @ [v])))"

definition Set :: "header \<Rightarrow> string \<Rightarrow> string \<Rightarrow> header" where
  "Set h key v = h(CanonicalHeaderKey key \<mapsto> [v])"

definition Get :: "header \<Rightarrow> string \<Rightarrow> string" where
  "Get h key =
     (case h (CanonicalHeaderKey key) of
        None \<Rightarrow> []
      | Some [] \<Rightarrow> []
      | Some (v # vs) \<Rightarrow> v)"

text \<open>The part of \<^verbatim>\<open>*http.Request\<close> the middleware reads.\<close>

record request =
  Method :: string
  Header :: header

text \<open>
  The \<^verbatim>\<open>http.ResponseWriter\<close>: the header map behind \<^verbatim>\<open>w.Header()\<close>, the status code once
  \<^verbatim>\<open>WriteHeader\<close> has been called (the first call decides, later calls are ignored) and
  the body written so far.
\<close>

record response =
  wHeader :: header
  wStatus :: "nat option"
  wBody :: string

definition WriteHeader :: "response \<Rightarrow> nat \<Rightarrow> response" where
  "WriteHeader w code = (case wStatus w of None \<Rightarrow> w\<lparr>wStatus := Some code\<rparr> | Some s \<Rightarrow> w)"

text \<open>A downstream \<^verbatim>\<open>http.Handler\<close>: whatever it does to the response, given the request.\<close>

type_synonym handler = "response \<Rightarrow> request \<Rightarrow> response"

definition MethodOptions :: string where
  "MethodOptions = ''OPTIONS''"

definition StatusOK :: nat where
  "StatusOK = 200"

section \<open>utils.go\<close>

record wildcard =
  prefix :: string
  suffix :: string

definition HasPrefix :: "string \<Rightarrow> string \<Rightarrow> bool" where
  "HasPrefix s p = (length p \<le> length s \<and> take (length p) s = p)"

definition HasSuffix :: "string \<Rightarrow> string \<Rightarrow> bool" where
  "HasSuffix s p = (length p \<le> length s \<and> drop (length s - length p) s = p)"

text \<open>
  Modelled from the spec: \<^verbatim>\<open>wildcard.match\<close>, whose file utils.go is not among the sources.
  Section 4.2: a candidate matches when its length is at least \<^verbatim>\<open>len(prefix)+len(suffix)\<close>,
  it starts with the prefix and it ends with the suffix.
\<close>

definition match :: "wildcard \<Rightarrow> string \<Rightarrow> bool" where
  "match w s =
     (length (prefix w) + length (suffix w) \<le> length s \<and>
      HasPrefix s (prefix w) \<and> HasSuffix s (suffix w))"

text \<open>
  Modelled from the spec: \<^verbatim>\<open>convert\<close> of utils.go. Section 4.1: it applies the transform to
  every element, preserving order and length.
\<close>

fun convert :: "string list \<Rightarrow> (string \<Rightarrow> string) \<Rightarrow> string list" where
  "convert [] f = []"
| "convert (x # xs) f = f x # convert xs f"

text \<open>
  Modelled from the spec: \<^verbatim>\<open>parseHeaderList\<close> of utils.go. Section 4.1: split on commas,
  trim the ASCII whitespace around each token, discard the empty tokens, bring each
  remaining token to header-name case, and drop a token seen before, keeping the order of
  first occurrence.
\<close>

fun splitComma :: "string \<Rightarrow> string \<Rightarrow> string list" where
  "splitComma cur [] = [rev cur]"
| "splitComma cur (c # cs) =
     (if c = CHR '','' then rev cur # splitComma [] cs else splitComma (c # cur) cs)"

definition isSpace :: "char \<Rightarrow> bool" where
  "isSpace c = ((of_char c :: nat) \<in> set [9, 10, 11, 12, 13, 32])"

definition trimSpace :: "string \<Rightarrow> string" where
  "trimSpace s = rev (dropWhile isSpace (rev (dropWhile isSpace s)))"

fun dedup :: "string list \<Rightarrow> string list \<Rightarrow> string list" where
  "dedup seen [] = []"
| "dedup seen (x # xs) =
     (if x \<in> set seen then dedup seen xs else x # dedup (x # seen) xs)"

fun nonEmpty :: "string \<Rightarrow> bool" where
  "nonEmpty [] = False"
| "nonEmpty (c # cs) = True"

definition parseHeaderList :: "string \<Rightarrow> string list" where
  "parseHeaderList headerList =
     dedup [] (map (canonicalize True)
       (filter nonEmpty (map trimSpace (splitComma [] headerList))))"

section \<open>cors.go: the configuration and its compilation\<close>

record Options =
  AllowedOrigins :: "string list"
  AllowOriginFunc :: "(string \<Rightarrow> bool) option"
  AllowedMethods :: "string list"
  AllowedHeaders :: "string list"
  ExposedHeaders :: "string list"
  MaxAge :: int
  AllowCredentials :: bool
  OptionsPassthrough :: bool
  Debug :: bool

text \<open>
  The compiled policy. The field \<open>log\<close> says whether a logger is installed; what the logger
  prints is no part of the model, since \<^verbatim>\<open>logf\<close> touches neither the policy nor the
  response. A nil slice and an empty slice behave alike in every function below, both are
  the empty list.
\<close>

record Cors =
  log :: bool
  allowedOrigins :: "string list"
  allowedWOrigins :: "wildcard list"
  allowOriginFunc :: "(string \<Rightarrow> bool) option"
  allowedHeaders :: "string list"
  allowedMethods :: "string list"
  exposedHeaders :: "string list"
  maxAge :: int
  allowedOriginsAll :: bool
  allowedHeadersAll :: bool
  allowCredentials :: bool
  optionPassthrough :: bool

text \<open>
  The loop of \<^verbatim>\<open>New\<close> over \<^verbatim>\<open>options.AllowedOrigins\<close>; the state is
  (\<^verbatim>\<open>allowedOriginsAll\<close>, \<^verbatim>\<open>allowedOrigins\<close>, \<^verbatim>\<open>allowedWOrigins\<close>), and \<^verbatim>\<open>"*"\<close> breaks out.
\<close>

fun scanOrigins ::
  "string list \<Rightarrow> bool \<times> string list \<times> wildcard list \<Rightarrow> bool \<times> string list \<times> wildcard list"
where
  "scanOrigins [] st = st"
| "scanOrigins (raw # rest) (oAll, exact, wild) =
     (let origin = ToLower raw in
      if origin = ''*'' then (True, [], [])
      else (let i = IndexByte origin (CHR ''*'') in
        if 0 \<le> i
        then scanOrigins rest
               (oAll, exact,
                wild @ [\<lparr>prefix = take (nat i) origin, suffix = drop (nat (i + 1)) origin\<rparr>])
        else scanOrigins rest (oAll, exact @ [origin], wild)))"

text \<open>
  The loop of \<^verbatim>\<open>New\<close> over \<^verbatim>\<open>options.AllowedHeaders\<close>; the state is
  (\<^verbatim>\<open>allowedHeadersAll\<close>, \<^verbatim>\<open>allowedHeaders\<close>).
\<close>

fun scanHeaders :: "string list \<Rightarrow> bool \<times> string list \<Rightarrow> bool \<times> string list" where
  "scanHeaders [] st = st"
| "scanHeaders (h # rest) (hAll, hs) =
     (if h = ''*'' then (True, []) else scanHeaders rest (hAll, hs))"

definition New :: "Options \<Rightarrow> Cors" where
  "New options =
     (let (oAll, exact, wild) =
            (if length (AllowedOrigins options) = 0
             then (case AllowOriginFunc options of
                     None \<Rightarrow> (True, [], [])
                   | Some f \<Rightarrow> (False, [], []))
             else scanOrigins (AllowedOrigins options) (False, [], []));
          (hAll, hs) =
            (if length (AllowedHeaders options) = 0
             then (False, [''Origin'', ''Accept'', ''Content-Type'', ''X-Requested-With''])
             else scanHeaders (AllowedHeaders options)
                    (False, convert (AllowedHeaders options @ [''Origin'']) CanonicalHeaderKey));
          ms =
            (if length (AllowedMethods options) = 0
             then [''GET'', ''POST'', ''HEAD'']
             else convert (AllowedMethods options) ToUpper)
      in \<lparr>log = Debug options,
          allowedOrigins = exact,
          allowedWOrigins = wild,
          allowOriginFunc = AllowOriginFunc options,
          allowedHeaders = hs,
          allowedMethods = ms,
          exposedHeaders = convert (ExposedHeaders options) CanonicalHeaderKey,
          maxAge = MaxAge options,
          allowedOriginsAll = oAll,
          allowedHeadersAll = hAll,
          allowCredentials = AllowCredentials options,
          optionPassthrough = OptionsPassthrough options\<rparr>)"

section \<open>cors.go: the admissibility checks\<close>

text \<open>The loop \<^verbatim>\<open>for _, o := range list { if o == s { return true } }\<close>.\<close>

fun containsString :: "string list \<Rightarrow> string \<Rightarrow> bool" where
  "containsString [] s = False"
| "containsString (x # xs) s = (if x = s then True else containsString xs s)"

fun anyMatch :: "wildcard list \<Rightarrow> string \<Rightarrow> bool" where
  "anyMatch [] s = False"
| "anyMatch (w # ws) s = (if match w s then True else anyMatch ws s)"

definition isOriginAllowed :: "Cors \<Rightarrow> string \<Rightarrow> bool" where
  "isOriginAllowed c origin =
     (case allowOriginFunc c of
        Some f \<Rightarrow> f origin
      | None \<Rightarrow>
          if allowedOriginsAll c then True
          else (let origin = ToLower origin in
            if containsString (allowedOrigins c) origin then True
            else if anyMatch (allowedWOrigins c) origin then True
            else False))"

definition isMethodAllowed :: "Cors \<Rightarrow> string \<Rightarrow> bool" where
  "isMethodAllowed c method =
     (if length (allowedMethods c) = 0 then False
      else (let method = ToUpper method in
        if method = MethodOptions then True
        else containsString (allowedMethods c) method))"

text \<open>The inner loop of \<^verbatim>\<open>areHeadersAllowed\<close> runs to the end of the list, setting
  \<^verbatim>\<open>found\<close> on every hit.\<close>

fun findHeader :: "string list \<Rightarrow> string \<Rightarrow> bool \<Rightarrow> bool" where
  "findHeader [] header found = found"
| "findHeader (h # hs) header found = findHeader hs header (if h = header then True else found)"

fun headersLoop :: "string list \<Rightarrow> string list \<Rightarrow> bool" where
  "headersLoop allowed [] = True"
| "headersLoop allowed (header # rest) =
     (let header = CanonicalHeaderKey header;
          found = findHeader allowed header False
      in if \<not> found then False else headersLoop allowed rest)"

definition areHeadersAllowed :: "Cors \<Rightarrow> string list \<Rightarrow> bool" where
  "areHeadersAllowed c reqHeaders =
     (if allowedHeadersAll c \<or> length reqHeaders = 0 then True
      else headersLoop (allowedHeaders c) reqHeaders)"

section \<open>cors.go: the two negotiation paths\<close>

definition handlePreflight :: "Cors \<Rightarrow> response \<Rightarrow> request \<Rightarrow> response" where
  "handlePreflight c w r =
     (let headers = wHeader w;
          origin = Get (Header r) ''Origin''
      in
      if Method r \<noteq> MethodOptions then w
      else
        (let headers = Add headers ''Vary'' ''Origin'';
             headers = Add headers ''Vary'' ''Access-Control-Request-Method'';
             headers = Add headers ''Vary'' ''Access-Control-Request-Headers''
         in
         if origin = [] then w\<lparr>wHeader := headers\<rparr>
         else if \<not> isOriginAllowed c origin then w\<lparr>wHeader := headers\<rparr>
         else
           (let reqMethod = Get (Header r) ''Access-Control-Request-Method'' in
            if \<not> isMethodAllowed c reqMethod then w\<lparr>wHeader := headers\<rparr>
            else
              (let reqHeaders = parseHeaderList (Get (Header r) ''Access-Control-Request-Headers'') in
               if \<not> areHeadersAllowed c reqHeaders then w\<lparr>wHeader := headers\<rparr>
               else
                 (let headers =
                        (if allowedOriginsAll c \<and> \<not> allowCredentials c
                         then Set headers ''Access-Control-Allow-Origin'' ''*''
                         else Set headers ''Access-Control-Allow-Origin'' origin);
                      headers = Set headers ''Access-Control-Allow-Methods'' (ToUpper reqMethod);
                      headers =
                        (if 0 < length reqHeaders
                         then Set headers ''Access-Control-Allow-Headers'' (Join reqHeaders '', '')
                         else headers);
                      headers =
                        (if allowCredentials c
                         then Set headers ''Access-Control-Allow-Credentials'' ''true''
                         else headers);
                      headers =
                        (if 0 < maxAge c
                         then Set headers ''Access-Control-Max-Age'' (Itoa (maxAge c))
                         else headers)
                  in w\<lparr>wHeader := headers\<rparr>)))))"

definition handleActualRequest :: "Cors \<Rightarrow> response \<Rightarrow> request \<Rightarrow> response" where
  "handleActualRequest c w r =
     (let headers = wHeader w;
          origin = Get (Header r) ''Origin''
      in
      if Method r = MethodOptions then w
      else
        (let headers = Add headers ''Vary'' ''Origin'' in
         if origin = [] then w\<lparr>wHeader := headers\<rparr>
         else if \<not> isOriginAllowed c origin then w\<lparr>wHeader := headers\<rparr>
         else if \<not> isMethodAllowed c (Method r) then w\<lparr>wHeader := headers\<rparr>
         else
           (let headers =
                  (if allowedOriginsAll c \<and> \<not> allowCredentials c
                   then Set headers ''Access-Control-Allow-Origin'' ''*''
                   else Set headers ''Access-Control-Allow-Origin'' origin);
                headers =
                  (if 0 < length (exposedHeaders c)
                   then Set headers ''Access-Control-Expose-Headers'' (Join (exposedHeaders c) '', '')
                   else headers);
                headers =
                  (if allowCredentials c
                   then Set headers ''Access-Control-Allow-Credentials'' ''true''
                   else headers)
            in w\<lparr>wHeader := headers\<rparr>)))"

section \<open>cors.go: the three adapters\<close>

definition isPreflight :: "request \<Rightarrow> bool" where
  "isPreflight r =
     (Method r = MethodOptions \<and> Get (Header r) ''Access-Control-Request-Method'' \<noteq> [])"

definition Handler :: "Cors \<Rightarrow> handler \<Rightarrow> handler" where
  "Handler c h w r =
     (if isPreflight r
      then (let w = handlePreflight c w r in
            if optionPassthrough c then h w r else WriteHeader w StatusOK)
      else (let w = handleActualRequest c w r in h w r))"

definition HandlerFunc :: "Cors \<Rightarrow> response \<Rightarrow> request \<Rightarrow> response" where
  "HandlerFunc c w r =
     (if isPreflight r then handlePreflight c w r else handleActualRequest c w r)"

definition ServeHTTP :: "Cors \<Rightarrow> response \<Rightarrow> request \<Rightarrow> handler \<Rightarrow> response" where
  "ServeHTTP c w r next =
     (if isPreflight r
      then (let w = handlePreflight c w r in
            if optionPassthrough c then next w r else WriteHeader w StatusOK)
      else (let w = handleActualRequest c w r in next w r))"

section \<open>Concrete configurations, requests and responses\<close>

text \<open>\<^verbatim>\<open>Options{}\<close>, the zero value that \<^verbatim>\<open>Default\<close> compiles.\<close>

definition zeroOptions :: Options where
  "zeroOptions =
     \<lparr>AllowedOrigins = [], AllowOriginFunc = None, AllowedMethods = [], AllowedHeaders = [],
      ExposedHeaders = [], MaxAge = 0, AllowCredentials = False, OptionsPassthrough = False,
      Debug = False\<rparr>"

definition Default :: Cors where
  "Default = New zeroOptions"

text \<open>
  What lines 193-195 of \<^verbatim>\<open>handlePreflight\<close> add to a header map, and the conditions under
  which one of its aborts after those lines fires (lines 197-216).
\<close>

definition varyPreflight :: "header \<Rightarrow> header" where
  "varyPreflight h =
     Add (Add (Add h ''Vary'' ''Origin'') ''Vary'' ''Access-Control-Request-Method'')
       ''Vary'' ''Access-Control-Request-Headers''"

definition preflightRejected :: "Cors \<Rightarrow> request \<Rightarrow> bool" where
  "preflightRejected c r =
     (Get (Header r) ''Origin'' = [] \<or>
      \<not> isOriginAllowed c (Get (Header r) ''Origin'') \<or>
      \<not> isMethodAllowed c (Get (Header r) ''Access-Control-Request-Method'') \<or>
      \<not> areHeadersAllowed c
          (parseHeaderList (Get (Header r) ''Access-Control-Request-Headers'')))"

text \<open>A response nothing has been written to.\<close>

definition emptyResponse :: response where
  "emptyResponse = \<lparr>wHeader = Map.empty, wStatus = None, wBody = []\<rparr>"

text \<open>
  \<^verbatim>\<open>w.Write\<close> on the recorder cors_test.go uses (\<^verbatim>\<open>httptest.ResponseRecorder\<close>): when no status
  was sent before, it sets \<^verbatim>\<open>Content-Type\<close> to the type detected from the bytes unless the key
  is present or \<^verbatim>\<open>Transfer-Encoding\<close> is set, and sends status 200; then it appends the bytes
  to the body. The detected type is a parameter; for the bytes \<^verbatim>\<open>hello\<close> of \<^verbatim>\<open>testHandler\<close>
  it is \<^verbatim>\<open>text/plain; charset=utf-8\<close>.
\<close>

definition Write :: "response \<Rightarrow> string \<Rightarrow> string \<Rightarrow> response" where
  "Write w contentType bytes =
     (let w = (case wStatus w of
                 Some s \<Rightarrow> w
               | None \<Rightarrow>
                   (let w = (if wHeader w ''Content-Type'' = None \<and>
                                Get (wHeader w) ''Transfer-Encoding'' = []
                             then w\<lparr>wHeader := Set (wHeader w) ''Content-Type'' contentType\<rparr>
                             else w)
                    in WriteHeader w StatusOK))
      in w\<lparr>wBody := wBody w @ bytes\<rparr>)"

definition testHandler :: handler where
  "testHandler w r = Write w ''text/plain; charset=utf-8'' ''hello''"

text \<open>A downstream handler with an empty body: it leaves the response as it is.\<close>

definition idleHandler :: handler where
  "idleHandler w r = w"

text \<open>Configurations and requests of \<^verbatim>\<open>TestSpec\<close> in cors_test.go.\<close>

definition foobarOptions :: Options where
  "foobarOptions = zeroOptions\<lparr>AllowedOrigins := [''http://foobar.com'']\<rparr>"

definition putDeleteOptions :: Options where
  "putDeleteOptions =
     zeroOptions\<lparr>AllowedOrigins := [''http://foobar.com''],
                  AllowedMethods := [''PUT'', ''DELETE'']\<rparr>"

definition bareOptionsRequest :: request where
  "bareOptionsRequest = \<lparr>Method = ''OPTIONS'', Header = Map.empty\<rparr>"

definition patchPreflight :: request where
  "patchPreflight =
     \<lparr>Method = ''OPTIONS'',
      Header = [''Origin'' \<mapsto> [''http://foobar.com''],
                ''Access-Control-Request-Method'' \<mapsto> [''PATCH'']]\<rparr>"

definition foobarGet :: request where
  "foobarGet = \<lparr>Method = ''GET'', Header = [''Origin'' \<mapsto> [''http://foobar.com'']]\<rparr>"

definition headerOptions :: Options where
  "headerOptions =
     zeroOptions\<lparr>AllowedOrigins := [''http://foobar.com''],
                  AllowedHeaders := [''X-Header-1'', ''x-header-2'']\<rparr>"


definition wildcardOptions :: Options where
  "wildcardOptions = zeroOptions\<lparr>AllowedOrigins := [''http://*.bar.com'']\<rparr>"

definition getPreflight :: request where
  "getPreflight =
     \<lparr>Method = ''OPTIONS'',
      Header = [''Origin'' \<mapsto> [''http://foobar.com''],
                ''Access-Control-Request-Method'' \<mapsto> [''GET'']]\<rparr>"


definition header3Preflight :: request where
  "header3Preflight =
     \<lparr>Method = ''OPTIONS'',
      Header = [''Origin'' \<mapsto> [''http://foobar.com''],
                ''Access-Control-Request-Method'' \<mapsto> [''GET''],
                ''Access-Control-Request-Headers'' \<mapsto> [''X-Header-3, X-Header-1'']]\<rparr>"




text \<open>
  An origin predicate in the manner of the \<^verbatim>\<open>AllowedOriginFunc\<close> cases of cors_test.go (the
  regular expression \<^verbatim>\<open>^http://foo\<close>), alone and beside an origins list that holds \<^verbatim>\<open>"*"\<close>.
\<close>

definition fooPrefix :: "string \<Rightarrow> bool" where
  "fooPrefix origin = HasPrefix origin ''http://foo''"

definition funcOnlyOptions :: Options where
  "funcOnlyOptions = zeroOptions\<lparr>AllowOriginFunc := Some fooPrefix\<rparr>"

definition starFuncOptions :: Options where
  "starFuncOptions =
     zeroOptions\<lparr>AllowedOrigins := [''*''], AllowOriginFunc := Some fooPrefix\<rparr>"

section \<open>The compiled policy, field by field\<close>

lemma convert_map: "convert xs f = map f xs"
  by (induction xs) simp_all

lemma containsString_set: "containsString xs s = (s \<in> set xs)"
  by (induction xs) auto

lemma New_allowedMethods:
  "allowedMethods (New options) =
     (if AllowedMethods options = [] then [''GET'', ''POST'', ''HEAD'']
      else convert (AllowedMethods options) ToUpper)"
  by (simp add: New_def Let_def split: prod.splits)

lemma New_fields:
  "allowOriginFunc (New options) = AllowOriginFunc options"
  "allowCredentials (New options) = AllowCredentials options"
  "maxAge (New options) = MaxAge options"
  "optionPassthrough (New options) = OptionsPassthrough options"
  "exposedHeaders (New options) = convert (ExposedHeaders options) CanonicalHeaderKey"
  by (simp_all add: New_def Let_def split: prod.splits)

lemma New_allowedMethods_nonempty: "allowedMethods (New options) \<noteq> []"
  by (simp add: New_allowedMethods convert_map)

lemma IndexByte_first: "c \<notin> set p \<Longrightarrow> IndexByte (p @ c # q) c = int (length p)"
  by (induction p) (auto simp: Let_def)

lemma IndexByte_absent: "c \<notin> set s \<Longrightarrow> IndexByte s c = - 1"
  by (induction s) (auto simp: Let_def)

lemma nat_int_Suc: "nat (int n + 1) = Suc n"
  by simp

text \<open>A one-entry origins list whose entry, in lower case, has its first \<open>*\<close> between \<open>p\<close>
  and \<open>q\<close> compiles to the single pattern (\<open>p\<close>, \<open>q\<close>).\<close>

lemma New_single_wildcard:
  assumes "CHR ''*'' \<notin> set p" and "p \<noteq> [] \<or> q \<noteq> []" and "ToLower raw = p @ CHR ''*'' # q"
  shows "allowedWOrigins (New (zeroOptions\<lparr>AllowedOrigins := [raw]\<rparr>)) = [\<lparr>prefix = p, suffix = q\<rparr>]"
    and "allowedOrigins (New (zeroOptions\<lparr>AllowedOrigins := [raw]\<rparr>)) = []"
    and "\<not> allowedOriginsAll (New (zeroOptions\<lparr>AllowedOrigins := [raw]\<rparr>))"
    and "allowOriginFunc (New (zeroOptions\<lparr>AllowedOrigins := [raw]\<rparr>)) = None"
  using assms IndexByte_first [OF assms(1), of q]
  by (auto simp add: New_def zeroOptions_def Let_def nat_int_Suc)

text \<open>With a predicate configured, \<^verbatim>\<open>isOriginAllowed\<close> is the predicate.\<close>

lemma isOriginAllowed_predicate:
  "AllowOriginFunc options = Some f \<Longrightarrow> isOriginAllowed (New options) origin = f origin"
  by (simp add: isOriginAllowed_def New_fields)

section \<open>Decimal printing\<close>

lemma digitChar_code: "d < 10 \<Longrightarrow> (of_char (digitChar d) :: nat) = 48 + d"
  by (simp add: digitChar_def)

lemma decimalValue_snoc:
  "decimalValue (s @ [c]) = 10 * decimalValue s + ((of_char c :: nat) - 48)"
  by (simp add: decimalValue_def)

lemma decimal_roundtrip: "decimalValue (decimal n) = n"
proof (induction n rule: decimal.induct)
  case (1 n)
  show ?case
  proof (cases "n < 10")
    case True
    then show ?thesis
      by (simp add: decimal.simps [of n] decimalValue_def digitChar_code)
  next
    case False
    then have "decimalValue (decimal n) =
        10 * decimalValue (decimal (n div 10)) + ((of_char (digitChar (n mod 10)) :: nat) - 48)"
      by (simp add: decimal.simps [of n] decimalValue_snoc)
    then show ?thesis
      using False "1.IH" by (simp add: digitChar_code)
  qed
qed

lemma Itoa_roundtrip: "0 \<le> i \<Longrightarrow> int (decimalValue (Itoa i)) = i"
  by (simp add: Itoa_def decimal_roundtrip)

section \<open>Admissible methods\<close>

text \<open>
  C4, as the spec states it, fails on the code: \<^verbatim>\<open>New\<close> replaces an empty configured method
  list by GET, POST, HEAD, so the policy compiled from the zero-value options admits GET,
  a method other than OPTIONS.
\<close>

theorem isMethodAllowed_default_counterexample:
  "AllowedMethods zeroOptions = [] \<and> ToUpper ''GET'' \<noteq> ''OPTIONS'' \<and>
   isMethodAllowed (New zeroOptions) ''GET''"
  by (simp add: zeroOptions_def New_allowedMethods isMethodAllowed_def MethodOptions_def
      Let_def ToUpper_def toUpperByte_def isLower_def)

text \<open>
  C4, amended: on a policy compiled from an empty configured \<^verbatim>\<open>AllowedMethods\<close> list,
  \<^verbatim>\<open>isMethodAllowed\<close> works on the default list GET, POST, HEAD: it returns true exactly for
  the methods whose upper-casing is OPTIONS, GET, POST or HEAD. On every compiled policy,
  whatever the configured list holds, a method whose upper-casing is OPTIONS is allowed.
  On a policy whose \<^verbatim>\<open>allowedMethods\<close> is empty (compilation never produces one) every method
  is inadmissible, OPTIONS included.
\<close>

theorem isMethodAllowed_compiled:
  "(AllowedMethods options = [] \<longrightarrow>
      isMethodAllowed (New options) m =
        (ToUpper m \<in> {''OPTIONS'', ''GET'', ''POST'', ''HEAD''})) \<and>
   (ToUpper m = ''OPTIONS'' \<longrightarrow> isMethodAllowed (New options) m) \<and>
   (allowedMethods c = [] \<longrightarrow> \<not> isMethodAllowed c m)"
proof (intro conjI impI)
  assume "AllowedMethods options = []"
  then show "isMethodAllowed (New options) m =
        (ToUpper m \<in> {''OPTIONS'', ''GET'', ''POST'', ''HEAD''})"
    by (simp add: isMethodAllowed_def New_allowedMethods MethodOptions_def Let_def)
next
  assume "ToUpper m = ''OPTIONS''"
  then show "isMethodAllowed (New options) m"
    using New_allowedMethods_nonempty [of options]
    by (simp add: isMethodAllowed_def MethodOptions_def Let_def)
next
  assume "allowedMethods c = []"
  then show "\<not> isMethodAllowed c m"
    by (simp add: isMethodAllowed_def)
qed

theorem isMethodAllowed_compiled_witness:
  "AllowedMethods zeroOptions = [] \<and>
   isMethodAllowed (New zeroOptions) ''post'' \<and>
   \<not> isMethodAllowed (New zeroOptions) ''PUT'' \<and>
   ToUpper ''options'' = ''OPTIONS'' \<and>
   isMethodAllowed (New (zeroOptions\<lparr>AllowedMethods := [''PUT'']\<rparr>)) ''options'' \<and>
   allowedMethods ((New zeroOptions)\<lparr>allowedMethods := []\<rparr>) = [] \<and>
   \<not> isMethodAllowed ((New zeroOptions)\<lparr>allowedMethods := []\<rparr>) ''OPTIONS''"
  using
    isMethodAllowed_compiled [of zeroOptions "''post''" "(New zeroOptions)\<lparr>allowedMethods := []\<rparr>"]
    isMethodAllowed_compiled [of zeroOptions "''PUT''" "(New zeroOptions)\<lparr>allowedMethods := []\<rparr>"]
    isMethodAllowed_compiled [of "zeroOptions\<lparr>AllowedMethods := [''PUT'']\<rparr>" "''options''"
      "(New zeroOptions)\<lparr>allowedMethods := []\<rparr>"]
    isMethodAllowed_compiled [of zeroOptions "''OPTIONS''" "(New zeroOptions)\<lparr>allowedMethods := []\<rparr>"]
  by (simp add: zeroOptions_def ToUpper_def toUpperByte_def isLower_def)

section \<open>Admissible request headers\<close>

lemma findHeader_set: "findHeader allowed x found = (found \<or> x \<in> set allowed)"
  by (induction allowed arbitrary: found) auto

lemma headersLoop_all:
  "headersLoop allowed hs = (\<forall>h \<in> set hs. CanonicalHeaderKey h \<in> set allowed)"
  by (induction hs) (auto simp: findHeader_set Let_def)

lemma areHeadersAllowed_iff:
  "areHeadersAllowed c hs =
     (allowedHeadersAll c \<or> (\<forall>h \<in> set hs. CanonicalHeaderKey h \<in> set (allowedHeaders c)))"
  by (cases hs) (auto simp: areHeadersAllowed_def headersLoop_all)

section \<open>Header keys and the response writer\<close>

text \<open>Every key cors.go passes to \<^verbatim>\<open>Add\<close>, \<^verbatim>\<open>Set\<close> and \<^verbatim>\<open>Get\<close> is canonical already.\<close>

lemma canonical_keys:
  "CanonicalHeaderKey ''Vary'' = ''Vary''"
  "CanonicalHeaderKey ''Origin'' = ''Origin''"
  "CanonicalHeaderKey ''Access-Control-Request-Method'' = ''Access-Control-Request-Method''"
  "CanonicalHeaderKey ''Access-Control-Request-Headers'' = ''Access-Control-Request-Headers''"
  "CanonicalHeaderKey ''Access-Control-Allow-Origin'' = ''Access-Control-Allow-Origin''"
  "CanonicalHeaderKey ''Access-Control-Allow-Methods'' = ''Access-Control-Allow-Methods''"
  "CanonicalHeaderKey ''Access-Control-Allow-Headers'' = ''Access-Control-Allow-Headers''"
  "CanonicalHeaderKey ''Access-Control-Allow-Credentials'' = ''Access-Control-Allow-Credentials''"
  "CanonicalHeaderKey ''Access-Control-Max-Age'' = ''Access-Control-Max-Age''"
  "CanonicalHeaderKey ''Access-Control-Expose-Headers'' = ''Access-Control-Expose-Headers''"
  "CanonicalHeaderKey ''Content-Type'' = ''Content-Type''"
  "CanonicalHeaderKey ''Transfer-Encoding'' = ''Transfer-Encoding''"
  by (simp_all add: CanonicalHeaderKey_def validHeaderFieldByte_def canonByte_def isLower_def
      isUpper_def isDigit_def toUpperByte_def toLowerByte_def Let_def)

lemma WriteHeader_header: "wHeader (WriteHeader w code) = wHeader w"
  by (simp add: WriteHeader_def split: option.splits)

lemma WriteHeader_fresh: "wStatus w = None \<Longrightarrow> wStatus (WriteHeader w code) = Some code"
  by (simp add: WriteHeader_def)

lemma WriteHeader_body: "wBody (WriteHeader w code) = wBody w"
  by (simp add: WriteHeader_def split: option.splits)

text \<open>\<^verbatim>\<open>Write\<close>, and so \<^verbatim>\<open>testHandler\<close>, touches no header but \<^verbatim>\<open>Content-Type\<close>.\<close>

lemma Write_header_other:
  "k \<noteq> ''Content-Type'' \<Longrightarrow> wHeader (Write w ct bytes) k = wHeader w k"
  by (simp add: Write_def Let_def Set_def canonical_keys WriteHeader_header
      split: option.splits)

lemma testHandler_header_other:
  "k \<noteq> ''Content-Type'' \<Longrightarrow> wHeader (testHandler w r) k = wHeader w k"
  by (simp add: testHandler_def Write_header_other)

lemma emptyResponse_fields:
  "wHeader emptyResponse = Map.empty" "wStatus emptyResponse = None" "wBody emptyResponse = []"
  by (simp_all add: emptyResponse_def)

lemma varyPreflight_empty:
  "varyPreflight Map.empty =
     [''Vary'' \<mapsto> [''Origin'', ''Access-Control-Request-Method'', ''Access-Control-Request-Headers'']]"
  by (simp add: varyPreflight_def Add_def canonical_keys Let_def)

lemma varyPreflight_other: "k \<noteq> ''Vary'' \<Longrightarrow> varyPreflight h k = h k"
  by (simp add: varyPreflight_def Add_def canonical_keys Let_def)

lemma varyPreflight_Vary:
  "varyPreflight h ''Vary'' =
     Some ((case h ''Vary'' of None \<Rightarrow> [] | Some vs \<Rightarrow> vs) @
           [''Origin'', ''Access-Control-Request-Method'', ''Access-Control-Request-Headers''])"
  by (simp add: varyPreflight_def Add_def canonical_keys Let_def split: option.splits)

section \<open>The preflight path\<close>

lemma handlePreflight_status_body:
  "wStatus (handlePreflight c w r) = wStatus w \<and> wBody (handlePreflight c w r) = wBody w"
  by (simp add: handlePreflight_def Let_def)

lemma handlePreflight_rejected:
  "Method r = MethodOptions \<Longrightarrow> preflightRejected c r \<Longrightarrow>
   handlePreflight c w r = w\<lparr>wHeader := varyPreflight (wHeader w)\<rparr>"
  by (auto simp add: handlePreflight_def preflightRejected_def varyPreflight_def Let_def)

lemma patchPreflight_facts:
  "isPreflight patchPreflight"
  "Method patchPreflight = MethodOptions"
  "Get (Header patchPreflight) ''Origin'' = ''http://foobar.com''"
  "Get (Header patchPreflight) ''Access-Control-Request-Method'' = ''PATCH''"
  by (simp_all add: patchPreflight_def isPreflight_def MethodOptions_def Get_def canonical_keys)

lemma putDelete_rejects_patch: "preflightRejected (New putDeleteOptions) patchPreflight"
  by (simp add: preflightRejected_def patchPreflight_facts isMethodAllowed_def New_allowedMethods
      putDeleteOptions_def zeroOptions_def MethodOptions_def ToUpper_def toUpperByte_def isLower_def
      Let_def)

text \<open>
  C3, as the spec states it, fails on the code: \<^verbatim>\<open>handlePreflight\<close> tests the method before
  it adds the \<open>Vary\<close> entries, so on a request whose method is not OPTIONS it returns with
  no \<open>Vary\<close> entry.
\<close>

theorem preflight_vary_counterexample:
  "Method foobarGet \<noteq> MethodOptions \<and>
   wHeader (handlePreflight (New foobarOptions) emptyResponse foobarGet) ''Vary'' = None"
  by (simp add: foobarGet_def MethodOptions_def handlePreflight_def emptyResponse_def Let_def)

text \<open>
  C3, amended: on the preflight path the method test comes first, and when the method is
  not OPTIONS the response is left exactly as it was, without any \<open>Vary\<close> entry. When the
  method is OPTIONS the three \<open>Vary\<close> entries (Origin, Access-Control-Request-Method,
  Access-Control-Request-Headers) are appended before every other abort point, so they are
  present whichever later step aborts and also on success. When one of those later aborts
  fires (empty origin, inadmissible origin, method or headers), the response is the incoming
  one with the three \<open>Vary\<close> entries added: every header other than \<open>Vary\<close> is as before.
  \<^verbatim>\<open>handlePreflight\<close> is a total function with a response as its only result: no abort
  raises an error.
\<close>

theorem preflight_vary:
  "(Method r \<noteq> MethodOptions \<longrightarrow> handlePreflight c w r = w) \<and>
   (Method r = MethodOptions \<longrightarrow>
      wHeader (handlePreflight c w r) ''Vary'' =
        Some ((case wHeader w ''Vary'' of None \<Rightarrow> [] | Some vs \<Rightarrow> vs) @
              [''Origin'', ''Access-Control-Request-Method'', ''Access-Control-Request-Headers''])) \<and>
   (Method r = MethodOptions \<and> preflightRejected c r \<longrightarrow>
      handlePreflight c w r = w\<lparr>wHeader := varyPreflight (wHeader w)\<rparr> \<and>
      (\<forall>k. k \<noteq> ''Vary'' \<longrightarrow> wHeader (handlePreflight c w r) k = wHeader w k))"
proof (intro conjI impI)
  assume "Method r \<noteq> MethodOptions"
  then show "handlePreflight c w r = w"
    by (simp add: handlePreflight_def Let_def)
next
  assume m: "Method r = MethodOptions"
  have "wHeader (handlePreflight c w r) ''Vary'' = varyPreflight (wHeader w) ''Vary''"
    using m by (simp add: handlePreflight_def varyPreflight_def Let_def Set_def canonical_keys)
  then show "wHeader (handlePreflight c w r) ''Vary'' =
        Some ((case wHeader w ''Vary'' of None \<Rightarrow> [] | Some vs \<Rightarrow> vs) @
              [''Origin'', ''Access-Control-Request-Method'', ''Access-Control-Request-Headers''])"
    by (simp add: varyPreflight_Vary)
next
  assume a: "Method r = MethodOptions \<and> preflightRejected c r"
  then show "handlePreflight c w r = w\<lparr>wHeader := varyPreflight (wHeader w)\<rparr>"
    using handlePreflight_rejected by blast
next
  assume a: "Method r = MethodOptions \<and> preflightRejected c r"
  then have "handlePreflight c w r = w\<lparr>wHeader := varyPreflight (wHeader w)\<rparr>"
    using handlePreflight_rejected by blast
  then show "\<forall>k. k \<noteq> ''Vary'' \<longrightarrow> wHeader (handlePreflight c w r) k = wHeader w k"
    by (simp add: varyPreflight_other)
qed

theorem preflight_vary_witness:
  "Method foobarGet \<noteq> MethodOptions \<and>
   handlePreflight (New foobarOptions) emptyResponse foobarGet = emptyResponse \<and>
   Method patchPreflight = MethodOptions \<and>
   preflightRejected (New putDeleteOptions) patchPreflight \<and>
   wHeader (handlePreflight (New putDeleteOptions) emptyResponse patchPreflight) ''Vary'' =
     Some [''Origin'', ''Access-Control-Request-Method'', ''Access-Control-Request-Headers''] \<and>
   wHeader (handlePreflight (New putDeleteOptions) emptyResponse patchPreflight)
     ''Access-Control-Allow-Origin'' = None"
proof -
  have g: "Method foobarGet \<noteq> MethodOptions"
    by (simp add: foobarGet_def MethodOptions_def)
  note t1 = preflight_vary [of foobarGet "New foobarOptions" emptyResponse]
  note t2 = preflight_vary [of patchPreflight "New putDeleteOptions" emptyResponse]
  from t1 g have a: "handlePreflight (New foobarOptions) emptyResponse foobarGet = emptyResponse"
    by blast
  from t2 patchPreflight_facts(2) putDelete_rejects_patch
  have b: "handlePreflight (New putDeleteOptions) emptyResponse patchPreflight =
      emptyResponse\<lparr>wHeader := varyPreflight (wHeader emptyResponse)\<rparr>"
    by blast
  show ?thesis
    using g a patchPreflight_facts(2) putDelete_rejects_patch
    by (simp add: b emptyResponse_fields varyPreflight_empty)
qed

text \<open>
  C5: header admissibility on the preflight path is all-or-nothing. When \<^verbatim>\<open>allowedHeadersAll\<close>
  is false and some header of the parsed \<^verbatim>\<open>Access-Control-Request-Headers\<close> list is, after
  canonicalization, not in \<^verbatim>\<open>allowedHeaders\<close>, then \<^verbatim>\<open>areHeadersAllowed\<close> is false, the
  preflight aborts with only the three \<open>Vary\<close> entries added, and every other header, each
  \<open>Access-Control-Allow-*\<close> among them, is as it was before: nothing is filtered down to the
  allowed subset.
\<close>

theorem preflight_headers_all_or_nothing:
  assumes "Method r = MethodOptions"
    and "\<not> allowedHeadersAll c"
    and "x \<in> set (parseHeaderList (Get (Header r) ''Access-Control-Request-Headers''))"
    and "CanonicalHeaderKey x \<notin> set (allowedHeaders c)"
  shows "\<not> areHeadersAllowed c (parseHeaderList (Get (Header r) ''Access-Control-Request-Headers'')) \<and>
         handlePreflight c w r = w\<lparr>wHeader := varyPreflight (wHeader w)\<rparr> \<and>
         (\<forall>k. k \<noteq> ''Vary'' \<longrightarrow> wHeader (handlePreflight c w r) k = wHeader w k)"
proof -
  have no: "\<not> areHeadersAllowed c
      (parseHeaderList (Get (Header r) ''Access-Control-Request-Headers''))"
    using assms(2-4) by (auto simp: areHeadersAllowed_iff)
  then have rej: "preflightRejected c r"
    by (simp add: preflightRejected_def)
  have eq: "handlePreflight c w r = w\<lparr>wHeader := varyPreflight (wHeader w)\<rparr>"
    using handlePreflight_rejected [OF assms(1) rej] .
  show ?thesis
    using no eq by (simp add: varyPreflight_other)
qed

lemma header3_facts:
  "Method header3Preflight = MethodOptions"
  "\<not> allowedHeadersAll (New headerOptions)"
  "parseHeaderList (Get (Header header3Preflight) ''Access-Control-Request-Headers'') =
     [''X-Header-3'', ''X-Header-1'']"
  "allowedHeaders (New headerOptions) = [''X-Header-1'', ''X-Header-2'', ''Origin'']"
  "CanonicalHeaderKey ''X-Header-3'' = ''X-Header-3''"
  "CanonicalHeaderKey ''X-Header-1'' = ''X-Header-1''"
  by code_simp+

theorem preflight_headers_all_or_nothing_witness:
  "Method header3Preflight = MethodOptions \<and>
   \<not> allowedHeadersAll (New headerOptions) \<and>
   ''X-Header-3'' \<in> set (parseHeaderList (Get (Header header3Preflight) ''Access-Control-Request-Headers'')) \<and>
   ''X-Header-1'' \<in> set (parseHeaderList (Get (Header header3Preflight) ''Access-Control-Request-Headers'')) \<and>
   CanonicalHeaderKey ''X-Header-1'' \<in> set (allowedHeaders (New headerOptions)) \<and>
   CanonicalHeaderKey ''X-Header-3'' \<notin> set (allowedHeaders (New headerOptions)) \<and>
   wHeader (handlePreflight (New headerOptions) emptyResponse header3Preflight) =
     [''Vary'' \<mapsto> [''Origin'', ''Access-Control-Request-Method'', ''Access-Control-Request-Headers'']] \<and>
   wHeader (handlePreflight (New headerOptions) emptyResponse header3Preflight)
     ''Access-Control-Allow-Headers'' = None"
proof -
  have x: "''X-Header-3'' \<in>
      set (parseHeaderList (Get (Header header3Preflight) ''Access-Control-Request-Headers''))"
    by (simp add: header3_facts)
  have n: "CanonicalHeaderKey ''X-Header-3'' \<notin> set (allowedHeaders (New headerOptions))"
    by (simp add: header3_facts)
  have y: "CanonicalHeaderKey ''X-Header-1'' \<in> set (allowedHeaders (New headerOptions))"
    by (simp add: header3_facts)
  note t = preflight_headers_all_or_nothing
    [OF header3_facts(1) header3_facts(2) x n, of emptyResponse]
  from t have e: "wHeader (handlePreflight (New headerOptions) emptyResponse header3Preflight) =
      [''Vary'' \<mapsto> [''Origin'', ''Access-Control-Request-Method'', ''Access-Control-Request-Headers'']]"
    by (simp add: emptyResponse_fields varyPreflight_empty)
  show ?thesis
    using header3_facts(1) header3_facts(2) x n y e
    by (simp add: header3_facts(3))
qed





section \<open>The adapters\<close>

text \<open>
  C7: an OPTIONS request whose \<^verbatim>\<open>Access-Control-Request-Method\<close> header is absent or empty is
  routed by every adapter to the actual-request path, which returns at once for OPTIONS:
  \<^verbatim>\<open>HandlerFunc\<close> leaves the response as it was, and \<^verbatim>\<open>Handler\<close> and \<^verbatim>\<open>ServeHTTP\<close> hand the
  untouched response to the downstream handler. No header is added, not even \<open>Vary\<close>.
\<close>

theorem nonpreflight_options_no_headers:
  assumes "Method r = MethodOptions"
    and "Get (Header r) ''Access-Control-Request-Method'' = []"
  shows "HandlerFunc c w r = w \<and> Handler c h w r = h w r \<and> ServeHTTP c w r h = h w r \<and>
         wHeader (HandlerFunc c w r) = wHeader w"
  using assms
  by (simp add: HandlerFunc_def Handler_def ServeHTTP_def isPreflight_def
      handleActualRequest_def Let_def)

theorem nonpreflight_options_no_headers_witness:
  "Method bareOptionsRequest = MethodOptions \<and>
   Get (Header bareOptionsRequest) ''Access-Control-Request-Method'' = [] \<and>
   HandlerFunc (New foobarOptions) emptyResponse bareOptionsRequest = emptyResponse \<and>
   wHeader (Handler (New foobarOptions) testHandler emptyResponse bareOptionsRequest) ''Vary'' = None \<and>
   wHeader (ServeHTTP (New foobarOptions) emptyResponse bareOptionsRequest testHandler) ''Vary'' = None"
proof -
  have m: "Method bareOptionsRequest = MethodOptions"
    by (simp add: bareOptionsRequest_def MethodOptions_def)
  have g: "Get (Header bareOptionsRequest) ''Access-Control-Request-Method'' = []"
    by (simp add: bareOptionsRequest_def Get_def)
  show ?thesis
    using m g
      nonpreflight_options_no_headers [OF m g, of "New foobarOptions" emptyResponse testHandler]
    by (simp add: testHandler_header_other emptyResponse_def)
qed

text \<open>
  C10: for a preflight request that reaches \<^verbatim>\<open>Handler\<close> with \<^verbatim>\<open>OptionsPassthrough\<close> false on a
  response no status was sent on, the result is what \<^verbatim>\<open>handlePreflight\<close> leaves, with status
  200: the downstream handler has no part in it, the status is 200 and the body is untouched,
  whatever the outcome of the negotiation. A rejected preflight shows only in the headers:
  the three \<open>Vary\<close> entries and nothing else are added.
\<close>

theorem preflight_status_ok:
  assumes "isPreflight r" and "\<not> optionPassthrough c" and "wStatus w = None"
  shows "Handler c h w r = WriteHeader (handlePreflight c w r) StatusOK \<and>
         wStatus (Handler c h w r) = Some 200 \<and>
         wBody (Handler c h w r) = wBody w \<and>
         (preflightRejected c r \<longrightarrow> wHeader (Handler c h w r) = varyPreflight (wHeader w))"
proof -
  have eq: "Handler c h w r = WriteHeader (handlePreflight c w r) StatusOK"
    using assms by (simp add: Handler_def Let_def)
  have st: "wStatus (handlePreflight c w r) = None"
    using assms handlePreflight_status_body [of c w r] by simp
  have m: "Method r = MethodOptions"
    using assms by (simp add: isPreflight_def)
  show ?thesis
    using eq WriteHeader_fresh [OF st, of StatusOK] handlePreflight_status_body [of c w r]
      handlePreflight_rejected [OF m, of c w]
    by (simp add: WriteHeader_body WriteHeader_header StatusOK_def)
qed

theorem preflight_status_ok_witness:
  "isPreflight patchPreflight \<and> \<not> optionPassthrough (New putDeleteOptions) \<and>
   wStatus emptyResponse = None \<and> preflightRejected (New putDeleteOptions) patchPreflight \<and>
   wStatus (Handler (New putDeleteOptions) testHandler emptyResponse patchPreflight) = Some 200 \<and>
   wBody (Handler (New putDeleteOptions) testHandler emptyResponse patchPreflight) = [] \<and>
   wHeader (Handler (New putDeleteOptions) testHandler emptyResponse patchPreflight) =
     [''Vary'' \<mapsto> [''Origin'', ''Access-Control-Request-Method'', ''Access-Control-Request-Headers'']]"
proof -
  have p: "\<not> optionPassthrough (New putDeleteOptions)"
    by (simp add: New_fields putDeleteOptions_def zeroOptions_def)
  have s: "wStatus emptyResponse = None"
    by (simp add: emptyResponse_def)
  show ?thesis
    using p s putDelete_rejects_patch
      preflight_status_ok [OF patchPreflight_facts(1) p s, of testHandler, THEN conjunct2]
    by (simp add: patchPreflight_facts varyPreflight_empty emptyResponse_fields)
qed

lemma foobarGet_headers:
  "wHeader (HandlerFunc (New foobarOptions) emptyResponse foobarGet) ''Vary'' = Some [''Origin'']"
  "wHeader (HandlerFunc (New foobarOptions) emptyResponse foobarGet) ''Access-Control-Allow-Origin'' =
     Some [''http://foobar.com'']"
  "wHeader (HandlerFunc (New foobarOptions) emptyResponse foobarGet) ''Content-Type'' = None"
  "wHeader (Handler (New foobarOptions) testHandler emptyResponse foobarGet) ''Content-Type'' =
     Some [''text/plain; charset=utf-8'']"
  "wHeader (ServeHTTP (New foobarOptions) emptyResponse foobarGet testHandler) ''Content-Type'' =
     Some [''text/plain; charset=utf-8'']"
  by code_simp+

text \<open>
  C2, as the spec states it, fails on the code: \<^verbatim>\<open>Handler\<close> and \<^verbatim>\<open>ServeHTTP\<close> run the
  downstream handler on the response, \<^verbatim>\<open>HandlerFunc\<close> runs none. With \<^verbatim>\<open>testHandler\<close> of
  cors_test.go downstream, the same GET request ends with a \<^verbatim>\<open>Content-Type\<close> header after
  \<^verbatim>\<open>Handler\<close> and after \<^verbatim>\<open>ServeHTTP\<close> and without one after \<^verbatim>\<open>HandlerFunc\<close>: the header sets
  are not identical.
\<close>

theorem adapters_same_headers_counterexample:
  "wHeader (Handler (New foobarOptions) testHandler emptyResponse foobarGet) \<noteq>
     wHeader (HandlerFunc (New foobarOptions) emptyResponse foobarGet) \<and>
   wHeader (ServeHTTP (New foobarOptions) emptyResponse foobarGet testHandler) \<noteq>
     wHeader (HandlerFunc (New foobarOptions) emptyResponse foobarGet) \<and>
   wHeader (Handler (New foobarOptions) testHandler emptyResponse foobarGet) ''Content-Type'' =
     Some [''text/plain; charset=utf-8''] \<and>
   wHeader (HandlerFunc (New foobarOptions) emptyResponse foobarGet) ''Content-Type'' = None"
proof -
  have a: "wHeader (Handler (New foobarOptions) testHandler emptyResponse foobarGet) \<noteq>
     wHeader (HandlerFunc (New foobarOptions) emptyResponse foobarGet)"
  proof
    assume "wHeader (Handler (New foobarOptions) testHandler emptyResponse foobarGet) =
      wHeader (HandlerFunc (New foobarOptions) emptyResponse foobarGet)"
    then have
      "wHeader (Handler (New foobarOptions) testHandler emptyResponse foobarGet) ''Content-Type'' =
       wHeader (HandlerFunc (New foobarOptions) emptyResponse foobarGet) ''Content-Type''"
      by (rule arg_cong)
    then show False
      by (simp only: foobarGet_headers) simp
  qed
  have b: "wHeader (ServeHTTP (New foobarOptions) emptyResponse foobarGet testHandler) \<noteq>
     wHeader (HandlerFunc (New foobarOptions) emptyResponse foobarGet)"
  proof
    assume "wHeader (ServeHTTP (New foobarOptions) emptyResponse foobarGet testHandler) =
      wHeader (HandlerFunc (New foobarOptions) emptyResponse foobarGet)"
    then have
      "wHeader (ServeHTTP (New foobarOptions) emptyResponse foobarGet testHandler) ''Content-Type'' =
       wHeader (HandlerFunc (New foobarOptions) emptyResponse foobarGet) ''Content-Type''"
      by (rule arg_cong)
    then show False
      by (simp only: foobarGet_headers) simp
  qed
  show ?thesis
    using a b foobarGet_headers(3) foobarGet_headers(4) by simp
qed

text \<open>
  C2, amended: on the same policy, response and request, \<^verbatim>\<open>ServeHTTP\<close> with a continuation
  and \<^verbatim>\<open>Handler\<close> wrapping the same downstream handler produce the same response, and what
  either finalizes or hands downstream is exactly the response \<^verbatim>\<open>HandlerFunc\<close> produces. For
  every header name the downstream handler leaves alone, the three adapters end with the
  same values under that name; with a downstream handler that writes no header at all, the
  three adapters end with identical response header sets.
\<close>

theorem adapters_same_headers:
  "ServeHTTP c w r h = Handler c h w r \<and>
   Handler c h w r =
     (if isPreflight r \<and> \<not> optionPassthrough c then WriteHeader (HandlerFunc c w r) StatusOK
      else h (HandlerFunc c w r) r) \<and>
   ((\<forall>w'. wHeader (h w' r) k = wHeader w' k) \<longrightarrow>
      wHeader (Handler c h w r) k = wHeader (HandlerFunc c w r) k \<and>
      wHeader (ServeHTTP c w r h) k = wHeader (HandlerFunc c w r) k) \<and>
   ((\<forall>w'. wHeader (h w' r) = wHeader w') \<longrightarrow>
      wHeader (Handler c h w r) = wHeader (HandlerFunc c w r) \<and>
      wHeader (ServeHTTP c w r h) = wHeader (HandlerFunc c w r))"
  by (simp add: ServeHTTP_def Handler_def HandlerFunc_def Let_def WriteHeader_header)

theorem adapters_same_headers_witness:
  "(\<forall>w'. wHeader (testHandler w' foobarGet) ''Access-Control-Allow-Origin'' =
          wHeader w' ''Access-Control-Allow-Origin'') \<and>
   (\<forall>w'. wHeader (idleHandler w' foobarGet) = wHeader w') \<and>
   ServeHTTP (New foobarOptions) emptyResponse foobarGet testHandler =
     Handler (New foobarOptions) testHandler emptyResponse foobarGet \<and>
   wHeader (Handler (New foobarOptions) testHandler emptyResponse foobarGet)
     ''Access-Control-Allow-Origin'' = Some [''http://foobar.com''] \<and>
   wHeader (ServeHTTP (New foobarOptions) emptyResponse foobarGet testHandler)
     ''Access-Control-Allow-Origin'' = Some [''http://foobar.com''] \<and>
   wHeader (HandlerFunc (New foobarOptions) emptyResponse foobarGet)
     ''Access-Control-Allow-Origin'' = Some [''http://foobar.com''] \<and>
   wHeader (Handler (New foobarOptions) idleHandler emptyResponse foobarGet) =
     wHeader (HandlerFunc (New foobarOptions) emptyResponse foobarGet) \<and>
   wHeader (ServeHTTP (New foobarOptions) emptyResponse foobarGet idleHandler) =
     wHeader (HandlerFunc (New foobarOptions) emptyResponse foobarGet)"
proof -
  note t = adapters_same_headers
    [of "New foobarOptions" emptyResponse foobarGet testHandler "''Access-Control-Allow-Origin''"]
  note u = adapters_same_headers
    [of "New foobarOptions" emptyResponse foobarGet idleHandler "''Vary''"]
  have hp: "\<forall>w'. wHeader (testHandler w' foobarGet) ''Access-Control-Allow-Origin'' =
          wHeader w' ''Access-Control-Allow-Origin''"
    by (simp add: testHandler_header_other)
  have ip: "\<forall>w'. wHeader (idleHandler w' foobarGet) = wHeader w'"
    by (simp add: idleHandler_def)
  from t have a: "ServeHTTP (New foobarOptions) emptyResponse foobarGet testHandler =
     Handler (New foobarOptions) testHandler emptyResponse foobarGet"
    by (rule conjunct1)
  from t hp have b:
    "wHeader (Handler (New foobarOptions) testHandler emptyResponse foobarGet)
       ''Access-Control-Allow-Origin'' =
     wHeader (HandlerFunc (New foobarOptions) emptyResponse foobarGet) ''Access-Control-Allow-Origin''"
    "wHeader (ServeHTTP (New foobarOptions) emptyResponse foobarGet testHandler)
       ''Access-Control-Allow-Origin'' =
     wHeader (HandlerFunc (New foobarOptions) emptyResponse foobarGet) ''Access-Control-Allow-Origin''"
    by blast+
  from u ip have d:
    "wHeader (Handler (New foobarOptions) idleHandler emptyResponse foobarGet) =
       wHeader (HandlerFunc (New foobarOptions) emptyResponse foobarGet)"
    "wHeader (ServeHTTP (New foobarOptions) emptyResponse foobarGet idleHandler) =
       wHeader (HandlerFunc (New foobarOptions) emptyResponse foobarGet)"
    by blast+
  show ?thesis
    using hp ip a d by (simp only: b foobarGet_headers(2) simp_thms)
qed

section \<open>The origin predicate beside an origins list\<close>

text \<open>
  C1 says that with an origin predicate configured the origins list is ignored, also in the
  choice between \<open>*\<close> and the echoed origin. The code departs from it: with the same
  predicate, the same request and \<^verbatim>\<open>AllowCredentials\<close> false, the configuration whose list
  holds \<^verbatim>\<open>"*"\<close> answers \<^verbatim>\<open>Access-Control-Allow-Origin: *\<close>, the configuration with no list echoes
  the origin, on the actual-request path and on the preflight path alike. (\<^verbatim>\<open>New\<close> sets
  \<^verbatim>\<open>allowedOriginsAll\<close> for \<^verbatim>\<open>"*"\<close> without looking at the predicate.)
\<close>

theorem origin_list_not_ignored:
  "AllowOriginFunc starFuncOptions = Some fooPrefix \<and>
   AllowOriginFunc funcOnlyOptions = Some fooPrefix \<and>
   AllowedOrigins starFuncOptions = [''*''] \<and>
   AllowedOrigins funcOnlyOptions = [] \<and>
   wHeader (HandlerFunc (New starFuncOptions) emptyResponse foobarGet)
     ''Access-Control-Allow-Origin'' = Some [''*''] \<and>
   wHeader (HandlerFunc (New funcOnlyOptions) emptyResponse foobarGet)
     ''Access-Control-Allow-Origin'' = Some [''http://foobar.com''] \<and>
   wHeader (HandlerFunc (New starFuncOptions) emptyResponse getPreflight)
     ''Access-Control-Allow-Origin'' = Some [''*''] \<and>
   wHeader (HandlerFunc (New funcOnlyOptions) emptyResponse getPreflight)
     ''Access-Control-Allow-Origin'' = Some [''http://foobar.com'']"
proof (intro conjI)
  show "AllowOriginFunc starFuncOptions = Some fooPrefix"
    by (simp add: starFuncOptions_def zeroOptions_def)
  show "AllowOriginFunc funcOnlyOptions = Some fooPrefix"
    by (simp add: funcOnlyOptions_def zeroOptions_def)
  show "AllowedOrigins starFuncOptions = [''*'']"
    by (simp add: starFuncOptions_def zeroOptions_def)
  show "AllowedOrigins funcOnlyOptions = []"
    by (simp add: funcOnlyOptions_def zeroOptions_def)
  show "wHeader (HandlerFunc (New starFuncOptions) emptyResponse foobarGet)
     ''Access-Control-Allow-Origin'' = Some [''*'']"
    by code_simp
  show "wHeader (HandlerFunc (New funcOnlyOptions) emptyResponse foobarGet)
     ''Access-Control-Allow-Origin'' = Some [''http://foobar.com'']"
    by code_simp
  show "wHeader (HandlerFunc (New starFuncOptions) emptyResponse getPreflight)
     ''Access-Control-Allow-Origin'' = Some [''*'']"
    by code_simp
  show "wHeader (HandlerFunc (New funcOnlyOptions) emptyResponse getPreflight)
     ''Access-Control-Allow-Origin'' = Some [''http://foobar.com'']"
    by code_simp
qed

section \<open>The wildcard matcher\<close>

lemma match_iff_split:
  "match \<lparr>prefix = p, suffix = q\<rparr> s = (\<exists>mid. s = p @ mid @ q)"
proof
  assume m: "match \<lparr>prefix = p, suffix = q\<rparr> s"
  then have len: "length p + length q \<le> length s"
    and pre: "take (length p) s = p"
    and suf: "drop (length s - length q) s = q"
    by (simp_all add: match_def HasPrefix_def HasSuffix_def)
  let ?t = "drop (length p) s"
  have s1: "s = p @ ?t"
    using pre by (metis append_take_drop_id)
  have n: "length ?t - length q + length p = length s - length q"
    using len by simp
  have "drop (length ?t - length q) ?t = q"
    using suf by (simp only: drop_drop n)
  then have "?t = take (length ?t - length q) ?t @ q"
    by (metis append_take_drop_id)
  then have "s = p @ take (length ?t - length q) ?t @ q"
    using s1 by simp
  then show "\<exists>mid. s = p @ mid @ q" ..
next
  assume "\<exists>mid. s = p @ mid @ q"
  then obtain mid where "s = p @ mid @ q" ..
  then show "match \<lparr>prefix = p, suffix = q\<rparr> s"
    by (simp add: match_def HasPrefix_def HasSuffix_def)
qed

text \<open>
  C9: a pattern (prefix \<open>p\<close>, suffix \<open>q\<close>) matches \<open>s\<close> if and only if \<open>s\<close> is at
  least as long as \<open>p\<close> and \<open>q\<close> together, starts with \<open>p\<close> and ends with \<open>q\<close>; that is, if
  and only if \<open>s\<close> is \<open>p\<close>, then anything, then \<open>q\<close>. \<^verbatim>\<open>New\<close> builds the pattern by cutting
  the lower-cased origin at its first \<open>*\<close>: for a one-entry origins list whose entry is
  \<open>p\<close>, \<open>*\<close>, \<open>q\<close> with no \<open>*\<close> in \<open>p\<close> (and not \<open>*\<close> alone), the compiled policy holds
  exactly the pattern (\<open>p\<close>, \<open>q\<close>) and admits an origin if and only if the pattern matches
  its lower-casing.
\<close>

theorem wildcard_match:
  "match \<lparr>prefix = p, suffix = q\<rparr> s =
     (length p + length q \<le> length s \<and> take (length p) s = p \<and>
      drop (length s - length q) s = q) \<and>
   match \<lparr>prefix = p, suffix = q\<rparr> s = (\<exists>mid. s = p @ mid @ q) \<and>
   (CHR ''*'' \<notin> set p \<and> (p \<noteq> [] \<or> q \<noteq> []) \<and> ToLower raw = p @ CHR ''*'' # q \<longrightarrow>
      allowedWOrigins (New (zeroOptions\<lparr>AllowedOrigins := [raw]\<rparr>)) = [\<lparr>prefix = p, suffix = q\<rparr>] \<and>
      isOriginAllowed (New (zeroOptions\<lparr>AllowedOrigins := [raw]\<rparr>)) s =
        match \<lparr>prefix = p, suffix = q\<rparr> (ToLower s))"
proof (intro conjI impI)
  show "match \<lparr>prefix = p, suffix = q\<rparr> s =
     (length p + length q \<le> length s \<and> take (length p) s = p \<and>
      drop (length s - length q) s = q)"
    by (auto simp add: match_def HasPrefix_def HasSuffix_def)
  show "match \<lparr>prefix = p, suffix = q\<rparr> s = (\<exists>mid. s = p @ mid @ q)"
    by (rule match_iff_split)
next
  assume a: "CHR ''*'' \<notin> set p \<and> (p \<noteq> [] \<or> q \<noteq> []) \<and> ToLower raw = p @ CHR ''*'' # q"
  then have a1: "CHR ''*'' \<notin> set p" and a2: "p \<noteq> [] \<or> q \<noteq> []"
    and a3: "ToLower raw = p @ CHR ''*'' # q" by blast+
  note n = New_single_wildcard [OF a1 a2 a3]
  show "allowedWOrigins (New (zeroOptions\<lparr>AllowedOrigins := [raw]\<rparr>)) = [\<lparr>prefix = p, suffix = q\<rparr>]"
    by (rule n(1))
  show "isOriginAllowed (New (zeroOptions\<lparr>AllowedOrigins := [raw]\<rparr>)) s =
        match \<lparr>prefix = p, suffix = q\<rparr> (ToLower s)"
    using n by (simp add: isOriginAllowed_def Let_def)
qed

theorem wildcard_match_witness:
  "CHR ''*'' \<notin> set ''http://'' \<and>
   ToLower ''http://*.bar.com'' = ''http://'' @ CHR ''*'' # ''.bar.com'' \<and>
   allowedWOrigins (New wildcardOptions) = [\<lparr>prefix = ''http://'', suffix = ''.bar.com''\<rparr>] \<and>
   match \<lparr>prefix = ''http://'', suffix = ''.bar.com''\<rparr> ''http://foo.bar.com'' \<and>
   \<not> match \<lparr>prefix = ''http://'', suffix = ''.bar.com''\<rparr> ''http://foo.baz.com'' \<and>
   isOriginAllowed (New wildcardOptions) ''http://foo.bar.com'' \<and>
   \<not> isOriginAllowed (New wildcardOptions) ''http://foo.baz.com'' \<and>
   match \<lparr>prefix = ''foo'', suffix = ''bar''\<rparr> ''foobar'' \<and>
   match \<lparr>prefix = ''foo'', suffix = ''bar''\<rparr> ''foobazbar'' \<and>
   \<not> match \<lparr>prefix = ''foo'', suffix = ''bar''\<rparr> ''foobaz''"
proof -
  have l: "ToLower ''http://*.bar.com'' = ''http://'' @ CHR ''*'' # ''.bar.com''"
    "ToLower ''http://foo.bar.com'' = ''http://foo.bar.com''"
    "ToLower ''http://foo.baz.com'' = ''http://foo.baz.com''"
    by code_simp+
  have s: "CHR ''*'' \<notin> set ''http://''"
    by simp
  note t1 = wildcard_match [of "''http://''" "''.bar.com''" "''http://foo.bar.com''" "''http://*.bar.com''"]
  note t2 = wildcard_match [of "''http://''" "''.bar.com''" "''http://foo.baz.com''" "''http://*.bar.com''"]
  note t3 = wildcard_match [of "''foo''" "''bar''" "''foobar''" "[]"]
  note t4 = wildcard_match [of "''foo''" "''bar''" "''foobazbar''" "[]"]
  note t5 = wildcard_match [of "''foo''" "''bar''" "''foobaz''" "[]"]
  have m1: "match \<lparr>prefix = ''http://'', suffix = ''.bar.com''\<rparr> ''http://foo.bar.com''"
    using t1 [THEN conjunct1] by simp
  have m2: "\<not> match \<lparr>prefix = ''http://'', suffix = ''.bar.com''\<rparr> ''http://foo.baz.com''"
    using t2 [THEN conjunct1] by simp
  have m3: "match \<lparr>prefix = ''foo'', suffix = ''bar''\<rparr> ''foobar''"
    using t3 [THEN conjunct1] by simp
  have m4: "match \<lparr>prefix = ''foo'', suffix = ''bar''\<rparr> ''foobazbar''"
    using t4 [THEN conjunct1] by simp
  have m5: "\<not> match \<lparr>prefix = ''foo'', suffix = ''bar''\<rparr> ''foobaz''"
    using t5 [THEN conjunct1] by simp
  have w: "allowedWOrigins (New wildcardOptions) = [\<lparr>prefix = ''http://'', suffix = ''.bar.com''\<rparr>]"
    and o1: "isOriginAllowed (New wildcardOptions) ''http://foo.bar.com'' =
        match \<lparr>prefix = ''http://'', suffix = ''.bar.com''\<rparr> (ToLower ''http://foo.bar.com'')"
    using t1 [THEN conjunct2, THEN conjunct2] s l(1) by (simp_all add: wildcardOptions_def)
  have o2: "isOriginAllowed (New wildcardOptions) ''http://foo.baz.com'' =
        match \<lparr>prefix = ''http://'', suffix = ''.bar.com''\<rparr> (ToLower ''http://foo.baz.com'')"
    using t2 [THEN conjunct2, THEN conjunct2] s l(1) by (simp_all add: wildcardOptions_def)
  show ?thesis
    using s l(1) w m1 m2 m3 m4 m5 o1 o2 by (simp only: l(2) l(3) simp_thms)
qed

section \<open>The header-list parser\<close>

lemma canonicalize_Cons:
  "canonicalize u (c # cs) = canonByte u c # canonicalize (canonByte u c = CHR ''-'') cs"
  by (simp add: Let_def)

lemma canonByte_idem: "canonByte u (canonByte u c) = canonByte u c"
  apply (cases c)
  apply (cases u)
   apply (simp_all add: canonByte_def toUpperByte_def toLowerByte_def isLower_def isUpper_def)
  done

lemma canonByte_space: "isSpace (canonByte u c) = isSpace c"
  apply (cases c)
  apply (cases u)
   apply (simp_all add: canonByte_def toUpperByte_def toLowerByte_def isLower_def isUpper_def
      isSpace_def)
  done

lemma canonByte_comma: "(canonByte u c = CHR '','') = (c = CHR '','')"
  apply (cases c)
  apply (cases u)
   apply (simp_all add: canonByte_def toUpperByte_def toLowerByte_def isLower_def isUpper_def)
  done

text \<open>Canonicalization is idempotent.\<close>

lemma canonicalize_idem: "canonicalize u (canonicalize u s) = canonicalize u s"
  by (induction s arbitrary: u)
    (simp_all only: canonicalize.simps(1) canonicalize_Cons canonByte_idem)

lemma canonicalize_Nil_iff: "(canonicalize u s = []) = (s = [])"
  by (cases s) (simp_all add: Let_def)

lemma canonicalize_comma: "(CHR '','' \<in> set (canonicalize u s)) = (CHR '','' \<in> set s)"
proof (induction s arbitrary: u)
  case Nil
  then show ?case by simp
next
  case (Cons c cs)
  have "(CHR '','' = canonByte u c) = (CHR '','' = c)"
    using canonByte_comma [of u c] by auto
  then show ?case
    using Cons.IH by (simp only: canonicalize_Cons set_simps insert_iff)
qed

lemma canonicalize_hd: "s \<noteq> [] \<Longrightarrow> hd (canonicalize u s) = canonByte u (hd s)"
  by (cases s) (simp_all only: canonicalize_Cons list.sel, simp)

lemma canonicalize_last:
  "s \<noteq> [] \<Longrightarrow> \<exists>v. last (canonicalize u s) = canonByte v (last s)"
proof (induction s arbitrary: u)
  case Nil
  then show ?case by simp
next
  case (Cons c cs)
  show ?case
  proof (cases cs)
    case Nil
    then show ?thesis
      by (auto simp only: canonicalize_Cons canonicalize.simps(1) last.simps split: if_splits)
  next
    case (Cons d ds)
    then have "cs \<noteq> []" by simp
    from Cons.IH [OF this] obtain v where
      "last (canonicalize (canonByte u c = CHR ''-'') cs) = canonByte v (last cs)" by blast
    then show ?thesis
      using Cons \<open>cs \<noteq> []\<close>
      by (simp only: canonicalize_Cons last.simps canonicalize_Nil_iff) auto
  qed
qed

lemma dedup_set: "set (dedup seen xs) = set xs - set seen"
  by (induction xs arbitrary: seen) auto

lemma dedup_distinct: "distinct (dedup seen xs)"
  by (induction xs arbitrary: seen) (auto simp: dedup_set)

text \<open>First-seen order: a token at the end is kept, at the end, unless it was seen before.\<close>

lemma dedup_snoc:
  "dedup seen (xs @ [x]) =
     (if x \<in> set seen \<union> set xs then dedup seen xs else dedup seen xs @ [x])"
  by (induction xs arbitrary: seen) auto

lemma splitComma_no_comma:
  "CHR '','' \<notin> set cur \<Longrightarrow> \<forall>t \<in> set (splitComma cur s). CHR '','' \<notin> set t"
proof (induction s arbitrary: cur)
  case Nil
  then show ?case by simp
next
  case (Cons c cs)
  show ?case
  proof (cases "c = CHR '',''")
    case True
    then show ?thesis
      using Cons.IH [of "[]"] Cons.prems by simp
  next
    case False
    then show ?thesis
      using Cons.IH [of "c # cur"] Cons.prems by simp
  qed
qed

lemma dedup_first_occurrences:
  "dedup [] ts = map ((!) ts) (filter (\<lambda>i. ts ! i \<notin> set (take i ts)) [0..<length ts])"
proof (induction ts rule: rev_induct)
  case Nil
  then show ?case by simp
next
  case (snoc x ts)
  have f: "filter (\<lambda>i. (ts @ [x]) ! i \<notin> set (take i (ts @ [x]))) [0..<length ts] =
           filter (\<lambda>i. ts ! i \<notin> set (take i ts)) [0..<length ts]"
    by (rule filter_cong) (auto simp: nth_append)
  have m: "map ((!) (ts @ [x])) (filter (\<lambda>i. ts ! i \<notin> set (take i ts)) [0..<length ts]) =
           map ((!) ts) (filter (\<lambda>i. ts ! i \<notin> set (take i ts)) [0..<length ts])"
    by (rule map_cong) (auto simp: nth_append)
  have u: "[0..<length (ts @ [x])] = [0..<length ts] @ [length ts]"
    by simp
  have l: "filter (\<lambda>i. (ts @ [x]) ! i \<notin> set (take i (ts @ [x]))) [length ts] =
           (if x \<in> set ts then [] else [length ts])"
    by simp
  have "map ((!) (ts @ [x]))
          (filter (\<lambda>i. (ts @ [x]) ! i \<notin> set (take i (ts @ [x]))) [0..<length (ts @ [x])]) =
        map ((!) ts) (filter (\<lambda>i. ts ! i \<notin> set (take i ts)) [0..<length ts]) @
        (if x \<in> set ts then [] else [x])"
    by (simp only: u filter_append map_append f m l) simp
  then show ?case
    using snoc.IH by (simp add: dedup_snoc)
qed

lemma splitComma_append:
  "splitComma cur (s @ CHR '','' # t) = splitComma cur s @ splitComma [] t"
  by (induction s arbitrary: cur) simp_all

lemma splitComma_plain: "CHR '','' \<notin> set t \<Longrightarrow> splitComma cur t = [rev cur @ t]"
  by (induction t arbitrary: cur) auto

lemma splitComma_nonempty: "splitComma cur s \<noteq> []"
  by (induction s arbitrary: cur) auto

lemma splitComma_Join: "Join (splitComma cur s) '','' = rev cur @ s"
proof (induction s arbitrary: cur)
  case Nil
  then show ?case by simp
next
  case (Cons c cs)
  show ?case
  proof (cases "c = CHR '',''")
    case True
    obtain y ys where ys: "splitComma [] cs = y # ys"
      using splitComma_nonempty [of "[]" cs] by (cases "splitComma [] cs") auto
    have "Join (splitComma [] cs) '','' = cs"
      using Cons.IH [of "[]"] by simp
    then show ?thesis
      using True ys by simp
  next
    case False
    then show ?thesis using Cons.IH [of "c # cur"] by simp
  qed
qed

lemma trimSpace_subset: "set (trimSpace s) \<subseteq> set s"
  unfolding trimSpace_def
  by (metis set_rev set_dropWhileD subsetI)

lemma trimSpace_hd: "trimSpace s \<noteq> [] \<Longrightarrow> \<not> isSpace (hd (trimSpace s))"
proof -
  assume ne: "trimSpace s \<noteq> []"
  let ?a = "dropWhile isSpace s"
  let ?b = "dropWhile isSpace (rev ?a)"
  have b: "?b \<noteq> []" using ne by (simp add: trimSpace_def)
  have a: "?a \<noteq> []"
  proof
    assume "?a = []"
    then have "?b = []" by (simp only: rev.simps(1) dropWhile.simps(1))
    with b show False by contradiction
  qed
  have "hd (trimSpace s) = last ?b"
    using b by (simp add: trimSpace_def hd_rev)
  also have "last ?b = last (rev ?a)"
    using b by (metis last_appendR takeWhile_dropWhile_id)
  also have "last (rev ?a) = hd ?a"
    using a by (simp add: last_rev)
  finally show ?thesis
    using hd_dropWhile [OF a] by simp
qed

lemma trimSpace_last: "trimSpace s \<noteq> [] \<Longrightarrow> \<not> isSpace (last (trimSpace s))"
  unfolding trimSpace_def
  by (metis hd_dropWhile last_rev rev_is_Nil_conv)

lemma nonEmpty_iff: "nonEmpty t = (t \<noteq> [])"
  by (cases t) simp_all

lemma parseHeaderList_set:
  "set (parseHeaderList s) =
     canonicalize True ` {t \<in> trimSpace ` set (splitComma [] s). t \<noteq> []}"
  by (auto simp add: parseHeaderList_def dedup_set nonEmpty_iff)

lemma parseHeaderList_elem:
  assumes "h \<in> set (parseHeaderList s)"
  shows "h \<noteq> [] \<and> canonicalize True h = h \<and> CHR '','' \<notin> set h \<and>
         \<not> isSpace (hd h) \<and> \<not> isSpace (last h)"
proof -
  from assms obtain u where u: "u \<in> set (splitComma [] s)"
    and ne: "trimSpace u \<noteq> []" and h: "h = canonicalize True (trimSpace u)"
    by (auto simp add: parseHeaderList_set)
  have c: "CHR '','' \<notin> set (trimSpace u)"
    using splitComma_no_comma [of "[]" s] u trimSpace_subset [of u] by auto
  obtain v where v: "last h = canonByte v (last (trimSpace u))"
    using canonicalize_last [OF ne, of True] h by auto
  show ?thesis
    using ne c v trimSpace_hd [OF ne] trimSpace_last [OF ne]
    by (simp add: h canonicalize_Nil_iff canonicalize_idem canonicalize_comma canonicalize_hd
        canonByte_space)
qed

lemma parseHeaderList_plain:
  assumes "CHR '','' \<notin> set t"
  shows "parseHeaderList t =
     (if trimSpace t = [] then [] else [canonicalize True (trimSpace t)])"
  using assms by (simp add: parseHeaderList_def splitComma_plain nonEmpty_iff)

lemma parseHeaderList_append:
  assumes "CHR '','' \<notin> set t"
  shows "parseHeaderList (s @ CHR '','' # t) =
     (if trimSpace t = [] \<or> canonicalize True (trimSpace t) \<in> set (parseHeaderList s)
      then parseHeaderList s
      else parseHeaderList s @ [canonicalize True (trimSpace t)])"
proof (cases "trimSpace t = []")
  case True
  then show ?thesis
    using assms by (simp add: parseHeaderList_def splitComma_append splitComma_plain nonEmpty_iff)
next
  case False
  then show ?thesis
    using assms
    by (simp add: parseHeaderList_def splitComma_append splitComma_plain nonEmpty_iff
        dedup_snoc dedup_set)
qed

lemma parseHeaderList_first:
  "parseHeaderList s =
     (let ts = map (canonicalize True) (filter (\<lambda>t. t \<noteq> []) (map trimSpace (splitComma [] s)))
      in map ((!) ts) (filter (\<lambda>i. ts ! i \<notin> set (take i ts)) [0..<length ts]))"
proof -
  have "nonEmpty = (\<lambda>t. t \<noteq> [])"
    by (rule ext) (simp add: nonEmpty_iff)
  then show ?thesis
    by (simp add: parseHeaderList_def Let_def dedup_first_occurrences)
qed

text \<open>
  C8: \<^verbatim>\<open>parseHeaderList\<close> yields the four canonical names for the header list of
  \<^verbatim>\<open>TestParseHeaderList\<close>, the empty sequence for the empty string and for \<open>", "\<close>, and one
  entry, at the place of the first occurrence, for tokens that differ in case only
  (\<open>"a, b, a"\<close> gives A, B). For every input: the comma-separated pieces joined by commas
  give the input back; the result holds exactly the canonicalized non-empty trimmed pieces;
  no entry occurs twice; and every entry is non-empty, in header-name case already, free
  of commas, and begins and ends with a byte that is not ASCII whitespace. First-seen order:
  the result is the sequence of canonicalized non-empty trimmed pieces, in input order, with
  every piece dropped that equals an earlier one. Piece by piece: a comma-free input gives
  its canonicalized trimmed piece, or nothing when that is empty; and a further
  comma-separated piece at the end of the input is appended to the result, unless it is
  empty after trimming or its canonical form is in the result already, in which case the
  result is unchanged.
\<close>

theorem parseHeaderList_spec:
  "parseHeaderList ''header, second-header, THIRD-HEADER, Numb3r3d-H34d3r'' =
     [''Header'', ''Second-Header'', ''Third-Header'', ''Numb3r3d-H34d3r''] \<and>
   parseHeaderList [] = [] \<and>
   parseHeaderList '', '' = [] \<and>
   parseHeaderList ''b, a,B ,, A'' = [''B'', ''A''] \<and>
   Join (splitComma [] s) '','' = s \<and>
   set (parseHeaderList s) =
     canonicalize True ` {t \<in> trimSpace ` set (splitComma [] s). t \<noteq> []} \<and>
   distinct (parseHeaderList s) \<and>
   (h \<in> set (parseHeaderList s) \<longrightarrow>
      h \<noteq> [] \<and> canonicalize True h = h \<and> CHR '','' \<notin> set h \<and>
      \<not> isSpace (hd h) \<and> \<not> isSpace (last h)) \<and>
   parseHeaderList ''a, b, a'' = [''A'', ''B''] \<and>
   parseHeaderList s =
     (let ts = map (canonicalize True) (filter (\<lambda>t. t \<noteq> []) (map trimSpace (splitComma [] s)))
      in map ((!) ts) (filter (\<lambda>i. ts ! i \<notin> set (take i ts)) [0..<length ts])) \<and>
   (CHR '','' \<notin> set t \<longrightarrow>
      parseHeaderList t =
        (if trimSpace t = [] then [] else [canonicalize True (trimSpace t)]) \<and>
      parseHeaderList (s @ CHR '','' # t) =
        (if trimSpace t = [] \<or> canonicalize True (trimSpace t) \<in> set (parseHeaderList s)
         then parseHeaderList s
         else parseHeaderList s @ [canonicalize True (trimSpace t)]))"
proof (intro conjI impI)
  show "parseHeaderList ''header, second-header, THIRD-HEADER, Numb3r3d-H34d3r'' =
     [''Header'', ''Second-Header'', ''Third-Header'', ''Numb3r3d-H34d3r'']"
    by code_simp
  show "parseHeaderList [] = []"
    by code_simp
  show "parseHeaderList '', '' = []"
    by code_simp
  show "parseHeaderList ''b, a,B ,, A'' = [''B'', ''A'']"
    by code_simp
  show "Join (splitComma [] s) '','' = s"
    using splitComma_Join [of "[]" s] by simp
  show "set (parseHeaderList s) =
     canonicalize True ` {t \<in> trimSpace ` set (splitComma [] s). t \<noteq> []}"
    by (rule parseHeaderList_set)
  show "distinct (parseHeaderList s)"
    by (simp add: parseHeaderList_def dedup_distinct)
  show "parseHeaderList ''a, b, a'' = [''A'', ''B'']"
    by code_simp
  show "parseHeaderList s =
     (let ts = map (canonicalize True) (filter (\<lambda>t. t \<noteq> []) (map trimSpace (splitComma [] s)))
      in map ((!) ts) (filter (\<lambda>i. ts ! i \<notin> set (take i ts)) [0..<length ts]))"
    by (rule parseHeaderList_first)
next
  assume "h \<in> set (parseHeaderList s)"
  then show "h \<noteq> []" "canonicalize True h = h" "CHR '','' \<notin> set h"
    "\<not> isSpace (hd h)" "\<not> isSpace (last h)"
    using parseHeaderList_elem by blast+
next
  assume c: "CHR '','' \<notin> set t"
  show "parseHeaderList t =
        (if trimSpace t = [] then [] else [canonicalize True (trimSpace t)])"
    by (rule parseHeaderList_plain [OF c])
  show "parseHeaderList (s @ CHR '','' # t) =
        (if trimSpace t = [] \<or> canonicalize True (trimSpace t) \<in> set (parseHeaderList s)
         then parseHeaderList s
         else parseHeaderList s @ [canonicalize True (trimSpace t)])"
    by (rule parseHeaderList_append [OF c])
qed

theorem parseHeaderList_spec_witness:
  "''A'' \<in> set (parseHeaderList ''b, a,B ,, A'') \<and>
   distinct (parseHeaderList ''b, a,B ,, A'') \<and>
   canonicalize True ''A'' = ''A'' \<and>
   Join (splitComma [] ''b, a,B ,, A'') '','' = ''b, a,B ,, A'' \<and>
   CHR '','' \<notin> set '' a'' \<and>
   CHR '','' \<notin> set '' c'' \<and>
   parseHeaderList ''a, b'' = [''A'', ''B''] \<and>
   parseHeaderList (''a, b'' @ CHR '','' # '' a'') = [''A'', ''B''] \<and>
   parseHeaderList (''a, b'' @ CHR '','' # '' c'') = [''A'', ''B'', ''C'']"
proof -
  have m: "''A'' \<in> set (parseHeaderList ''b, a,B ,, A'')"
    by code_simp
  have ca: "CHR '','' \<notin> set '' a''" and cc: "CHR '','' \<notin> set '' c''"
    by simp_all
  have e: "parseHeaderList ''a, b'' = [''A'', ''B'']"
    "trimSpace '' a'' = ''a''" "trimSpace '' c'' = ''c''"
    "canonicalize True ''a'' = ''A''" "canonicalize True ''c'' = ''C''"
    by code_simp+
  note t1 = parseHeaderList_spec [of "''b, a,B ,, A''" "''A''" "'' a''"]
  note t2 = parseHeaderList_spec [of "''a, b''" "''A''" "'' a''"]
  note t3 = parseHeaderList_spec [of "''a, b''" "''A''" "'' c''"]
  from t2 ca have a: "parseHeaderList (''a, b'' @ CHR '','' # '' a'') =
        (if trimSpace '' a'' = [] \<or>
            canonicalize True (trimSpace '' a'') \<in> set (parseHeaderList ''a, b'')
         then parseHeaderList ''a, b''
         else parseHeaderList ''a, b'' @ [canonicalize True (trimSpace '' a'')])"
    by blast
  from t3 cc have c: "parseHeaderList (''a, b'' @ CHR '','' # '' c'') =
        (if trimSpace '' c'' = [] \<or>
            canonicalize True (trimSpace '' c'') \<in> set (parseHeaderList ''a, b'')
         then parseHeaderList ''a, b''
         else parseHeaderList ''a, b'' @ [canonicalize True (trimSpace '' c'')])"
    by blast
  have a': "parseHeaderList (''a, b'' @ CHR '','' # '' a'') = [''A'', ''B'']"
    by (simp only: a e) simp
  have c': "parseHeaderList (''a, b'' @ CHR '','' # '' c'') = [''A'', ''B'', ''C'']"
    by (simp only: c e) simp
  from m t1 have f: "distinct (parseHeaderList ''b, a,B ,, A'')"
    "canonicalize True ''A'' = ''A''"
    "Join (splitComma [] ''b, a,B ,, A'') '','' = ''b, a,B ,, A''"
    by blast+
  show ?thesis
    using m f ca cc e(1) a' c' by blast
qed

end
